theory Spec2Isabelle
  imports Complex_Main "HOL-Library.AList" "HOL-Library.Multiset"
begin

section \<open>JavaScript numbers\<close>

text \<open>
  The split helper \<^verbatim>\<open>calculateSplit\<close> (\<^verbatim>\<open>frontend/src/services/api.js\<close>, lines 331-356)
  computes with JavaScript numbers. A number is modelled as an exact rational, or one of the three
  special values of IEEE-754 that \<^verbatim>\<open>parseFloat\<close>, \<^verbatim>\<open>*\<close> and \<^verbatim>\<open>/\<close> can produce. The
  rounding of finite results to 53 bits and the sign of zero are not modelled: finite
  arithmetic is exact.
\<close>

datatype jsnum = Fin rat | PInf | NInf | NaN

text \<open>\<^verbatim>\<open>a * b\<close>: infinity times zero is NaN, otherwise the sign rule applies.\<close>

fun jsmul :: "jsnum \<Rightarrow> jsnum \<Rightarrow> jsnum" where
  "jsmul NaN _ = NaN"
| "jsmul _ NaN = NaN"
| "jsmul (Fin x) (Fin y) = Fin (x * y)"
| "jsmul (Fin x) PInf = (if x = 0 then NaN else if 0 < x then PInf else NInf)"
| "jsmul (Fin x) NInf = (if x = 0 then NaN else if 0 < x then NInf else PInf)"
| "jsmul PInf (Fin y) = (if y = 0 then NaN else if 0 < y then PInf else NInf)"
| "jsmul NInf (Fin y) = (if y = 0 then NaN else if 0 < y then NInf else PInf)"
| "jsmul PInf PInf = PInf"
| "jsmul PInf NInf = NInf"
| "jsmul NInf PInf = NInf"
| "jsmul NInf NInf = PInf"

text \<open>
  \<^verbatim>\<open>a / b\<close>: a finite divisor zero is the positive zero (the divisors of this program
  are \<^verbatim>\<open>participants.length\<close> and the literal \<^verbatim>\<open>100\<close>).
\<close>

fun jsdiv :: "jsnum \<Rightarrow> jsnum \<Rightarrow> jsnum" where
  "jsdiv NaN _ = NaN"
| "jsdiv _ NaN = NaN"
| "jsdiv (Fin x) (Fin y) =
     (if y \<noteq> 0 then Fin (x / y)
      else if x = 0 then NaN else if 0 < x then PInf else NInf)"
| "jsdiv (Fin x) PInf = Fin 0"
| "jsdiv (Fin x) NInf = Fin 0"
| "jsdiv PInf (Fin y) = (if 0 \<le> y then PInf else NInf)"
| "jsdiv NInf (Fin y) = (if 0 \<le> y then NInf else PInf)"
| "jsdiv PInf PInf = NaN"
| "jsdiv PInf NInf = NaN"
| "jsdiv NInf PInf = NaN"
| "jsdiv NInf NInf = NaN"

text \<open>\<^verbatim>\<open>a + b\<close>, used to total the shares of a returned mapping.\<close>

fun jsadd :: "jsnum \<Rightarrow> jsnum \<Rightarrow> jsnum" where
  "jsadd NaN _ = NaN"
| "jsadd _ NaN = NaN"
| "jsadd (Fin x) (Fin y) = Fin (x + y)"
| "jsadd (Fin x) PInf = PInf"
| "jsadd (Fin x) NInf = NInf"
| "jsadd PInf (Fin y) = PInf"
| "jsadd NInf (Fin y) = NInf"
| "jsadd PInf PInf = PInf"
| "jsadd NInf NInf = NInf"
| "jsadd PInf NInf = NaN"
| "jsadd NInf PInf = NaN"

text \<open>Truthiness of a number: \<^verbatim>\<open>0\<close> and \<^verbatim>\<open>NaN\<close> are falsy.\<close>

fun falsy :: "jsnum \<Rightarrow> bool" where
  "falsy (Fin x) = (x = 0)"
| "falsy NaN = True"
| "falsy PInf = False"
| "falsy NInf = False"

text \<open>
  \<^verbatim>\<open>v || 0\<close> where \<^verbatim>\<open>v\<close> is a property read: \<open>None\<close> is \<^verbatim>\<open>undefined\<close> (no such
  property).
\<close>

fun or_zero :: "jsnum option \<Rightarrow> jsnum" where
  "or_zero None = Fin 0"
| "or_zero (Some v) = (if falsy v then Fin 0 else v)"

text \<open>
  \<^verbatim>\<open>parseFloat(amount)\<close>. The amount is taken as a JavaScript number, which
  \<^verbatim>\<open>parseFloat\<close> hands back unchanged; an amount given as text enters the model as the
  number it parses to, \<open>NaN\<close> when it has no numeric prefix (the empty string of a blank
  form field, for one).
\<close>

definition parseFloat :: "jsnum \<Rightarrow> jsnum" where
  "parseFloat amount = amount"

section \<open>The split helper\<close>

text \<open>
  \<^verbatim>\<open>
  export const calculateSplit = (amount, participants, method = 'equal', data = {}) => {
    const totalAmount = parseFloat(amount)
    switch (method) {
      case 'equal':
        const amountPerPerson = totalAmount / participants.length
        return participants.reduce((acc, participant) => {
          acc[participant.id] = amountPerPerson
          return acc
        }, {})
      case 'exact':
        return data.amounts || {}
      case 'percentage':
        return participants.reduce((acc, participant) => {
          const percentage = data.percentages[participant.id] || 0
          acc[participant.id] = (totalAmount * percentage) / 100
          return acc
        }, {})
      default:
        return {}
    }
  }
  \<close>
  The caller supplies all four arguments: an omitted method is \<^verbatim>\<open>'equal'\<close>, and omitted
  data is the object with neither property.
  A participant is an object with an \<^verbatim>\<open>id\<close>; \<^verbatim>\<open>data\<close> is an object whose properties
  \<^verbatim>\<open>amounts\<close> and \<^verbatim>\<open>percentages\<close> may be absent. An object used as a mapping from ids
  to numbers is an association list in insertion order; \<^verbatim>\<open>acc[k] = v\<close> is
  \<open>AList.update k v acc\<close>, which overwrites the entry of a key that is already there.
  Reading a property of \<^verbatim>\<open>undefined\<close> throws a \<^verbatim>\<open>TypeError\<close>; the function throws nothing
  else.
\<close>

record participant =
  participant_id :: nat

record split_data =
  amounts :: "(nat \<times> jsnum) list option"
  percentages :: "(nat \<times> jsnum) list option"

datatype js_error = TypeError

type_synonym shares = "(nat \<times> jsnum) list"

definition calculateSplit ::
  "jsnum \<Rightarrow> participant list \<Rightarrow> string \<Rightarrow> split_data \<Rightarrow> js_error + shares" where
  "calculateSplit amount participants method data =
     (let totalAmount = parseFloat amount in
      if method = ''equal'' then
        (let amountPerPerson = jsdiv totalAmount (Fin (of_nat (length participants)))
         in Inr (fold (\<lambda>participant acc.
                   AList.update (participant_id participant) amountPerPerson acc)
                 participants []))
      else if method = ''exact'' then
        Inr (case amounts data of None \<Rightarrow> [] | Some m \<Rightarrow> m)
      else if method = ''percentage'' then
        (case percentages data of
           None \<Rightarrow> (if participants = [] then Inr [] else Inl TypeError)
         | Some pcts \<Rightarrow>
             Inr (fold (\<lambda>participant acc.
                    (let percentage = or_zero (map_of pcts (participant_id participant))
                     in AList.update (participant_id participant)
                          (jsdiv (jsmul totalAmount percentage) (Fin 100)) acc))
                  participants []))
      else Inr [])"

text \<open>The total of the shares of a mapping.\<close>

definition sum_shares :: "shares \<Rightarrow> jsnum" where
  "sum_shares m = foldr jsadd (map snd m) (Fin 0)"

text \<open>
  The percentages of the participants, as the code reads them
  (\<^verbatim>\<open>data.percentages[participant.id] || 0\<close>), added up.
\<close>

definition percentage_sum :: "(nat \<times> jsnum) list \<Rightarrow> participant list \<Rightarrow> jsnum" where
  "percentage_sum pcts participants =
     foldr jsadd (map (\<lambda>p. or_zero (map_of pcts (participant_id p))) participants) (Fin 0)"

section \<open>The split as the specification words it\<close>







section \<open>The settlement ledger and the balance engine\<close>

text \<open>
  The repository's sources hold the client only: the thunks \<^verbatim>\<open>fetchGroupBalance\<close>,
  \<^verbatim>\<open>fetchReminderCandidates\<close> and \<^verbatim>\<open>settleExpenseParticipation\<close> call the server and store
  its answer. The ledger, the balance engine and the reminder selector that answer those
  calls are modelled below from the specification.
\<close>

text \<open>
  Modelled from the spec: the entities of the server's persistence layer, which is absent
  from the sources. A participation is one member's owed share of one expense, with its
  paid flag, settlement method and settlement time; an expense has its group, payer,
  total and participations in order; the ledger holds the members of each group, the
  expenses, and the next id to give out. Amounts are integers of the currency's minor
  unit (the specification's fixed-point currency).
\<close>

record participation =
  part_id :: nat
  part_member :: nat
  part_share :: int
  part_paid :: bool
  part_method :: "string option"
  part_settled_at :: "nat option"

record expense =
  exp_id :: nat
  exp_group :: nat
  exp_payer :: nat
  exp_total :: int
  exp_participations :: "participation list"

record ledger =
  group_members :: "(nat \<times> nat list) list"
  expenses :: "expense list"
  next_id :: nat

datatype ledger_error = NotFoundError | ConflictError

type_synonym balances = "(nat \<times> int) list"

definition members_of :: "ledger \<Rightarrow> nat \<Rightarrow> nat list" where
  "members_of l g = (case map_of (group_members l) g of None \<Rightarrow> [] | Some ms \<Rightarrow> remdups ms)"

definition all_participations :: "ledger \<Rightarrow> participation list" where
  "all_participations l = concat (map exp_participations (expenses l))"

text \<open>
  Modelled from the spec: the debit and credit steps of the Balance Engine, server code
  absent from the sources. A debit or credit adds a signed amount to the member's entry
  of the mapping, making the entry when there is none; an unpaid participation debits the
  participant by the share and credits the payer by the same share, a paid one does
  nothing.
\<close>

definition adjust :: "nat \<Rightarrow> int \<Rightarrow> balances \<Rightarrow> balances" where
  "adjust m d bal =
     (case map_of bal m of
        None \<Rightarrow> bal @ [(m, d)]
      | Some b \<Rightarrow> AList.update m (b + d) bal)"

definition apply_participation :: "nat \<Rightarrow> participation \<Rightarrow> balances \<Rightarrow> balances" where
  "apply_participation payer p bal =
     (if part_paid p then bal
      else adjust payer (part_share p) (adjust (part_member p) (- part_share p) bal))"

definition apply_expense :: "expense \<Rightarrow> balances \<Rightarrow> balances" where
  "apply_expense e bal = fold (apply_participation (exp_payer e)) (exp_participations e) bal"

text \<open>
  Modelled from the spec: the Balance Engine's \<^verbatim>\<open>computeGroupBalances\<close>, which is server
  code absent from the sources. "For every Expense in the group, for every unpaid
  Participation, debit the participant by the share and credit the payer by the same
  share"; every member of the group has an entry, zero when no share touches it ("an
  empty group yields all-zero balances").
\<close>

definition computeGroupBalances :: "ledger \<Rightarrow> nat \<Rightarrow> balances" where
  "computeGroupBalances l g =
     fold apply_expense (filter (\<lambda>e. exp_group e = g) (expenses l))
       (map (\<lambda>m. (m, 0)) (members_of l g))"

text \<open>The sum of all members' net balances.\<close>

definition sum_balances :: "balances \<Rightarrow> int" where
  "sum_balances bal = sum_list (map snd bal)"

text \<open>
  Modelled from the spec: the ledger's mutations, server code absent from the sources.
  An expense and its participations are created together, every participation unpaid;
  an edit discards the participations and generates new ones; a deletion removes the
  expense with its participations. The shares come from the Split Calculator and are
  taken as given. Each operation returns its result and the ledger after it; editing or
  deleting an expense that does not exist fails with \<open>NotFoundError\<close>.
\<close>

fun new_participations :: "nat \<Rightarrow> (nat \<times> int) list \<Rightarrow> participation list" where
  "new_participations n [] = []"
| "new_participations n ((m, s) # rest) =
     \<lparr>part_id = n, part_member = m, part_share = s, part_paid = False,
      part_method = None, part_settled_at = None\<rparr> # new_participations (Suc n) rest"

definition createExpense ::
  "ledger \<Rightarrow> nat \<Rightarrow> nat \<Rightarrow> int \<Rightarrow> (nat \<times> int) list \<Rightarrow> (ledger_error + expense) \<times> ledger" where
  "createExpense l g payer amount split =
     (let e = \<lparr>exp_id = next_id l, exp_group = g, exp_payer = payer, exp_total = amount,
               exp_participations = new_participations (Suc (next_id l)) split\<rparr>
      in (Inr e, l\<lparr>expenses := expenses l @ [e],
                   next_id := Suc (next_id l) + length split\<rparr>))"

definition editExpense ::
  "ledger \<Rightarrow> nat \<Rightarrow> nat \<Rightarrow> int \<Rightarrow> (nat \<times> int) list \<Rightarrow> (ledger_error + expense) \<times> ledger" where
  "editExpense l eid payer amount split =
     (case List.find (\<lambda>e. exp_id e = eid) (expenses l) of
        None \<Rightarrow> (Inl NotFoundError, l)
      | Some old \<Rightarrow>
          (let e = old\<lparr>exp_payer := payer, exp_total := amount,
                       exp_participations := new_participations (next_id l) split\<rparr>
           in (Inr e, l\<lparr>expenses := map (\<lambda>x. if exp_id x = eid then e else x) (expenses l),
                        next_id := next_id l + length split\<rparr>)))"

definition deleteExpense :: "ledger \<Rightarrow> nat \<Rightarrow> (ledger_error + expense) \<times> ledger" where
  "deleteExpense l eid =
     (case List.find (\<lambda>e. exp_id e = eid) (expenses l) of
        None \<Rightarrow> (Inl NotFoundError, l)
      | Some old \<Rightarrow> (Inr old, l\<lparr>expenses := filter (\<lambda>x. exp_id x \<noteq> eid) (expenses l)\<rparr>))"

text \<open>
  Modelled from the spec: the Settlement Ledger's \<^verbatim>\<open>markSettled\<close>, server code absent from
  the sources. It "fails with NotFoundError if the participation does not exist and
  ConflictError if already settled"; otherwise the participation becomes paid, with the
  settlement method and time. The call returns its result and the ledger after it.
\<close>

definition find_participation :: "ledger \<Rightarrow> nat \<Rightarrow> participation option" where
  "find_participation l pid = List.find (\<lambda>p. part_id p = pid) (all_participations l)"

definition settle :: "nat \<Rightarrow> string \<Rightarrow> nat \<Rightarrow> participation \<Rightarrow> participation" where
  "settle pid method now p =
     (if part_id p = pid
      then p\<lparr>part_paid := True, part_method := Some method, part_settled_at := Some now\<rparr>
      else p)"

definition markSettled ::
  "ledger \<Rightarrow> nat \<Rightarrow> string \<Rightarrow> nat \<Rightarrow> (ledger_error + participation) \<times> ledger" where
  "markSettled l pid method now =
     (case find_participation l pid of
        None \<Rightarrow> (Inl NotFoundError, l)
      | Some p \<Rightarrow>
          if part_paid p then (Inl ConflictError, l)
          else (Inr (settle pid method now p),
                l\<lparr>expenses :=
                    map (\<lambda>e. e\<lparr>exp_participations :=
                                 map (settle pid method now) (exp_participations e)\<rparr>)
                      (expenses l)\<rparr>))"

text \<open>
  Modelled from the spec: a request to the server and the ledger after a sequence of
  requests. A request that fails leaves the ledger as it was, and the next one is served.
\<close>

datatype request =
    Create nat nat int "(nat \<times> int) list"
  | Edit nat nat int "(nat \<times> int) list"
  | Delete nat
  | Settle nat string nat

fun serve :: "ledger \<Rightarrow> request \<Rightarrow> ledger" where
  "serve l (Create g payer amount split) = snd (createExpense l g payer amount split)"
| "serve l (Edit eid payer amount split) = snd (editExpense l eid payer amount split)"
| "serve l (Delete eid) = snd (deleteExpense l eid)"
| "serve l (Settle pid method now) = snd (markSettled l pid method now)"

definition serve_all :: "ledger \<Rightarrow> request list \<Rightarrow> ledger" where
  "serve_all l rs = foldl serve l rs"

text \<open>
  Modelled from the spec: the Reminder Candidate Selector's \<^verbatim>\<open>candidates\<close>, server code
  absent from the sources: "members whose net balance is negative and whose absolute
  value \<ge> minimumAmount, ordered by amount owed descending, ties broken by member id
  ascending". A candidate is a member with the amount owed.
\<close>

fun owes_before :: "nat \<times> int \<Rightarrow> nat \<times> int \<Rightarrow> bool" where
  "owes_before (m1, a1) (m2, a2) = (a2 < a1 \<or> (a1 = a2 \<and> m1 \<le> m2))"

fun insert_candidate :: "nat \<times> int \<Rightarrow> (nat \<times> int) list \<Rightarrow> (nat \<times> int) list" where
  "insert_candidate c [] = [c]"
| "insert_candidate c (d # ds) =
     (if owes_before c d then c # d # ds else d # insert_candidate c ds)"

definition sort_candidates :: "(nat \<times> int) list \<Rightarrow> (nat \<times> int) list" where
  "sort_candidates cs = foldr insert_candidate cs []"

definition eligible :: "int \<Rightarrow> nat \<times> int \<Rightarrow> bool" where
  "eligible minimumAmount mb = (snd mb < 0 \<and> minimumAmount \<le> \<bar>snd mb\<bar>)"

definition select_candidates :: "balances \<Rightarrow> int \<Rightarrow> (nat \<times> int) list" where
  "select_candidates bal minimumAmount =
     sort_candidates (map (\<lambda>mb. (fst mb, \<bar>snd mb\<bar>)) (filter (eligible minimumAmount) bal))"

definition candidates :: "ledger \<Rightarrow> nat \<Rightarrow> int \<Rightarrow> (nat \<times> int) list" where
  "candidates l groupId minimumAmount =
     select_candidates (computeGroupBalances l groupId) minimumAmount"

text \<open>
  A ledger for the examples: one expense of 100 paid by member 1 in group 1, shared in
  halves by the members 1 and 2; the half of member 1 is settled, the half of member 2 is
  open.
\<close>

definition settled_half :: participation where
  "settled_half = \<lparr>part_id = 1, part_member = 1, part_share = 50, part_paid = True,
     part_method = Some ''cash'', part_settled_at = Some 3\<rparr>"

definition open_half :: participation where
  "open_half = \<lparr>part_id = 2, part_member = 2, part_share = 50, part_paid = False,
     part_method = None, part_settled_at = None\<rparr>"

definition dinner :: "participation list \<Rightarrow> ledger" where
  "dinner ps =
     \<lparr>group_members = [(1, [1, 2])],
      expenses = [\<lparr>exp_id = 0, exp_group = 1, exp_payer = 1, exp_total = 100,
                   exp_participations = ps\<rparr>],
      next_id = 3\<rparr>"

text \<open>
  The ids of a ledger are the keys of its persistence layer: no two expenses and no two
  participations share an id, and every id in use is below the next one to be given out.
\<close>

definition ledger_ok :: "ledger \<Rightarrow> bool" where
  "ledger_ok l \<longleftrightarrow>
     distinct (map exp_id (expenses l)) \<and>
     distinct (map part_id (all_participations l)) \<and>
     (\<forall>e \<in> set (expenses l). exp_id e < next_id l) \<and>
     (\<forall>p \<in> set (all_participations l). part_id p < next_id l)"

section \<open>Mappings built by repeated assignment\<close>



lemma update_key_set: "fst ` set (AList.update k v al) = insert k (fst ` set al)"
  by (induction al) auto

lemma fold_update_keys:
  "fst ` set (fold (\<lambda>p a. AList.update (k p) (v p) a) ps acc) = fst ` set acc \<union> k ` set ps"
  by (induction ps arbitrary: acc) (simp_all add: update_key_set Un_commute insert_commute)

lemma fold_update_map_of:
  "map_of (fold (\<lambda>p a. AList.update (k p) (f (k p)) a) ps acc) x =
     (if x \<in> k ` set ps then Some (f x) else map_of acc x)"
  by (induction ps arbitrary: acc) (auto simp: update_conv')




section \<open>Rounding to the nearest integer\<close>


section \<open>The equal split\<close>




section \<open>The percentage split\<close>




section \<open>The exact split\<close>

text \<open>
  Claim C4, as amended. For method \<^verbatim>\<open>'exact'\<close>, \<open>calculateSplit\<close> checks nothing: it
  returns the mapping \<^verbatim>\<open>data.amounts\<close> as it was supplied, the empty mapping when
  \<^verbatim>\<open>data.amounts\<close> is absent, whatever the amounts add up to, and it never fails.
\<close>

theorem exact_split_unchecked:
  "calculateSplit amount participants ''exact'' data =
     Inr (case amounts data of None \<Rightarrow> [] | Some m \<Rightarrow> m)"
  by (simp add: calculateSplit_def)

text \<open>
  The claim as the specification states it fails: the amounts 10 and 20 supplied for a
  total of 100 add up to 30, and the call returns them instead of failing.
\<close>

theorem exact_split_counterexample:
  "sum_shares [(1, Fin 10), (2, Fin 20)] = Fin 30 \<and>
   calculateSplit (Fin 100) [\<lparr>participant_id = 1\<rparr>, \<lparr>participant_id = 2\<rparr>] ''exact''
     \<lparr>amounts = Some [(1, Fin 10), (2, Fin 20)], percentages = None\<rparr> =
     Inr [(1, Fin 10), (2, Fin 20)]"
  by (simp add: calculateSplit_def sum_shares_def)

section \<open>Percentages that do not add up to 100\<close>

text \<open>
  Claim C5, as amended. For method \<^verbatim>\<open>'percentage'\<close> with \<^verbatim>\<open>data.percentages\<close> present,
  \<open>calculateSplit\<close> does not check what the percentages add up to and does not fail: it
  returns a mapping whose keys are the ids of the participants, the share of each being
  the total times its percentage (\<^verbatim>\<open>data.percentages[id] || 0\<close>) over 100.
\<close>

theorem percentage_split_unchecked:
  assumes "percentages data = Some pcts"
  shows "\<exists>r. calculateSplit amount participants ''percentage'' data = Inr r \<and>
           fst ` set r = participant_id ` set participants \<and>
           (\<forall>p \<in> set participants.
              map_of r (participant_id p) =
                Some (jsdiv (jsmul amount (or_zero (map_of pcts (participant_id p)))) (Fin 100)))"
proof -
  let ?f = "\<lambda>i. jsdiv (jsmul amount (or_zero (map_of pcts i))) (Fin 100)"
  let ?r = "fold (\<lambda>p a. AList.update (participant_id p) (?f (participant_id p)) a) participants []"
  have r: "calculateSplit amount participants ''percentage'' data = Inr ?r"
    using assms by (simp add: calculateSplit_def parseFloat_def)
  have keys: "fst ` set ?r = participant_id ` set participants"
    by (simp add: fold_update_keys)
  have vals: "\<forall>p \<in> set participants. map_of ?r (participant_id p) = Some (?f (participant_id p))"
    using fold_update_map_of [where k = participant_id and f = ?f and ps = participants and acc = "[]"]
    by simp
  from r keys vals show ?thesis by blast
qed

theorem percentage_split_unchecked_witness:
  "percentages \<lparr>amounts = None, percentages = Some [(1, Fin 50), (2, Fin 30)]\<rparr> =
     Some [(1, Fin 50), (2, Fin 30)] \<and>
   (\<exists>r. calculateSplit (Fin 100) [\<lparr>participant_id = 1\<rparr>, \<lparr>participant_id = 2\<rparr>] ''percentage''
          \<lparr>amounts = None, percentages = Some [(1, Fin 50), (2, Fin 30)]\<rparr> = Inr r \<and>
        map_of r 1 = Some (Fin 50) \<and> map_of r 2 = Some (Fin 30))"
  using percentage_split_unchecked
    [of "\<lparr>amounts = None, percentages = Some [(1, Fin 50), (2, Fin 30)]\<rparr>"
        "[(1, Fin 50), (2, Fin 30)]" "Fin 100"
        "[\<lparr>participant_id = 1\<rparr>, \<lparr>participant_id = 2\<rparr>]"]
  by simp blast

text \<open>
  The claim as the specification states it fails: the percentages 50 and 30 add up to 80,
  and the call returns the shares 50 and 30 of a total of 100 instead of failing.
\<close>

theorem percentage_sum_counterexample:
  "percentage_sum [(1, Fin 50), (2, Fin 30)] [\<lparr>participant_id = 1\<rparr>, \<lparr>participant_id = 2\<rparr>] = Fin 80 \<and>
   calculateSplit (Fin 100) [\<lparr>participant_id = 1\<rparr>, \<lparr>participant_id = 2\<rparr>] ''percentage''
     \<lparr>amounts = None, percentages = Some [(1, Fin 50), (2, Fin 30)]\<rparr> =
     Inr [(1, Fin 50), (2, Fin 30)]"
  by (simp add: calculateSplit_def percentage_sum_def parseFloat_def)

section \<open>No validation of the input\<close>




section \<open>Participants without a percentage\<close>




section \<open>The zero-sum invariant of the balance engine\<close>

text \<open>
  A debit or credit changes the total of the balances by its amount, so the debit and
  the credit of one unpaid share cancel.
\<close>

lemma sum_update:
  "map_of bal m = Some b \<Longrightarrow>
   sum_list (map snd (AList.update m v bal)) = sum_list (map snd bal) - b + (v::int)"
  by (induction bal) (auto split: if_splits)

lemma sum_adjust: "sum_balances (adjust m d bal) = sum_balances bal + d"
  by (cases "map_of bal m") (simp_all add: adjust_def sum_balances_def sum_update)

lemma sum_apply_participation:
  "sum_balances (apply_participation payer p bal) = sum_balances bal"
  by (simp add: apply_participation_def sum_adjust)

lemma sum_apply_expense: "sum_balances (apply_expense e bal) = sum_balances bal"
proof -
  have "sum_balances (fold (apply_participation payer) ps bal) = sum_balances bal"
    for payer ps
    by (induction ps arbitrary: bal) (simp_all add: sum_apply_participation)
  then show ?thesis by (simp add: apply_expense_def)
qed

lemma sum_fold_apply_expense: "sum_balances (fold apply_expense es bal) = sum_balances bal"
  by (induction es arbitrary: bal) (simp_all add: sum_apply_expense)

lemma sum_initial: "sum_balances (map (\<lambda>m. (m, 0)) ms) = 0"
  by (induction ms) (simp_all add: sum_balances_def)

text \<open>
  Claim C1. For any group, any ledger and any sequence of expense creations, edits,
  deletions and settlements served from it, the net balances that \<open>computeGroupBalances\<close>
  gives for the group add up to 0.
\<close>

theorem balances_zero_sum:
  "sum_balances (computeGroupBalances (serve_all l requests) g) = 0"
  by (simp add: computeGroupBalances_def sum_fold_apply_expense sum_initial)

text \<open>
  The specification's scenario: in a group of the members 1, 2 and 3, member 1 pays 100.00,
  split 33.34, 33.33 and 33.33; the balances are +66.66, -33.33 and -33.33.
\<close>

theorem balances_zero_sum_witness:
  "computeGroupBalances
     (serve_all \<lparr>group_members = [(1, [1, 2, 3])], expenses = [], next_id = 0\<rparr>
        [Create 1 1 10000 [(1, 3334), (2, 3333), (3, 3333)]]) 1 =
     [(1, 6666), (2, - 3333), (3, - 3333)] \<and>
   sum_balances (computeGroupBalances
     (serve_all \<lparr>group_members = [(1, [1, 2, 3])], expenses = [], next_id = 0\<rparr>
        [Create 1 1 10000 [(1, 3334), (2, 3333), (3, 3333)]]) 1) = 0"
proof -
  have "computeGroupBalances
     (serve_all \<lparr>group_members = [(1, [1, 2, 3])], expenses = [], next_id = 0\<rparr>
        [Create 1 1 10000 [(1, 3334), (2, 3333), (3, 3333)]]) 1 =
     [(1, 6666), (2, - 3333), (3, - 3333)]"
    by (simp add: computeGroupBalances_def serve_all_def createExpense_def members_of_def
        apply_expense_def apply_participation_def adjust_def Let_def)
  then show ?thesis
    using balances_zero_sum [of "\<lparr>group_members = [(1, [1, 2, 3])], expenses = [], next_id = 0\<rparr>"
        "[Create 1 1 10000 [(1, 3334), (2, 3333), (3, 3333)]]" 1]
    by simp
qed

section \<open>The reminder candidates\<close>

text \<open>
  The order of the candidates is total and transitive, and the insertion sort keeps the
  candidates it is given and puts them in that order.
\<close>

lemma owes_before_total: "owes_before c d \<or> owes_before d c"
  by (cases c; cases d) auto

lemma owes_before_trans: "owes_before c d \<Longrightarrow> owes_before d e \<Longrightarrow> owes_before c e"
  by (cases c; cases d; cases e) auto

lemma mset_insert_candidate: "mset (insert_candidate c ds) = add_mset c (mset ds)"
  by (induction ds) simp_all

lemma set_insert_candidate: "set (insert_candidate c ds) = insert c (set ds)"
  using mset_insert_candidate [of c ds] by (metis set_mset_add_mset_insert set_mset_mset)

lemma sorted_insert_candidate:
  "sorted_wrt owes_before ds \<Longrightarrow> sorted_wrt owes_before (insert_candidate c ds)"
proof (induction ds)
  case Nil
  then show ?case by simp
next
  case (Cons d ds)
  show ?case
  proof (cases "owes_before c d")
    case True
    with Cons.prems have "\<forall>e \<in> set ds. owes_before c e"
      by (auto intro: owes_before_trans)
    with True Cons.prems show ?thesis by simp
  next
    case False
    then have "owes_before d c" using owes_before_total [of c d] by simp
    with False Cons show ?thesis by (simp add: set_insert_candidate)
  qed
qed

lemma mset_sort_candidates: "mset (sort_candidates cs) = mset cs"
  by (induction cs) (simp_all add: sort_candidates_def mset_insert_candidate)

lemma sorted_sort_candidates: "sorted_wrt owes_before (sort_candidates cs)"
  by (induction cs) (simp_all add: sort_candidates_def sorted_insert_candidate)

lemma owes_before_unfolded:
  "owes_before = (\<lambda>(m1, a1) (m2, a2). a2 < a1 \<or> (a1 = a2 \<and> m1 \<le> m2))"
  by (auto simp: fun_eq_iff)

lemma eligible_as_filter:
  "map (\<lambda>mb. (fst mb, \<bar>snd mb\<bar>)) (filter (eligible minimumAmount) bal) =
   map (\<lambda>(m, b). (m, - b)) (filter (\<lambda>(m, b). b < 0 \<and> minimumAmount \<le> - b) bal)"
  by (induction bal) (auto simp: eligible_def)

text \<open>
  Claim C7. For every group and minimum amount, \<open>candidates\<close> returns exactly the members
  whose net balance is negative with an absolute value of at least the minimum amount,
  each with the amount owed, ordered by the amount owed descending and, among equal
  amounts, by member id ascending. On the balances +50, -30 and -5 of the members 1, 2
  and 3 with the minimum amount 10, the selection is member 2 with 30 alone.
\<close>

theorem candidates_selected_and_ordered:
  "mset (candidates l groupId minimumAmount) =
     mset (map (\<lambda>(m, b). (m, - b))
            (filter (\<lambda>(m, b). b < 0 \<and> minimumAmount \<le> - b) (computeGroupBalances l groupId))) \<and>
   sorted_wrt (\<lambda>(m1, a1) (m2, a2). a2 < a1 \<or> (a1 = a2 \<and> m1 \<le> m2))
     (candidates l groupId minimumAmount) \<and>
   select_candidates [(1, 50), (2, - 30), (3, - 5)] 10 = [(2, 30)]"
proof -
  let ?bal = "computeGroupBalances l groupId"
  have sel: "mset (candidates l groupId minimumAmount) =
     mset (map (\<lambda>(m, b). (m, - b))
            (filter (\<lambda>(m, b). b < 0 \<and> minimumAmount \<le> - b) ?bal))"
    by (simp only: candidates_def select_candidates_def mset_sort_candidates eligible_as_filter)
  have ord: "sorted_wrt (\<lambda>(m1, a1) (m2, a2). a2 < a1 \<or> (a1 = a2 \<and> m1 \<le> m2))
     (candidates l groupId minimumAmount)"
    using sorted_sort_candidates
    by (simp add: candidates_def select_candidates_def owes_before_unfolded)
  have ex: "select_candidates [(1, 50), (2, - 30), (3, - 5)] 10 = [(2, 30)]"
    by (simp add: select_candidates_def sort_candidates_def eligible_def)
  from sel ord ex show ?thesis by simp
qed

section \<open>Settling a participation\<close>

text \<open>
  Looking a participation up by its id, and what a settlement leaves in the ledger.
\<close>

lemma find_by_id:
  "distinct (map part_id ps) \<Longrightarrow> p \<in> set ps \<Longrightarrow>
   List.find (\<lambda>q. part_id q = part_id p) ps = Some p"
proof (induction ps)
  case Nil
  then show ?case by simp
next
  case (Cons q ps)
  then show ?case by (cases "q = p") (auto simp: image_iff)
qed

lemma find_absent:
  "pid \<notin> part_id ` set ps \<Longrightarrow> List.find (\<lambda>q. part_id q = pid) ps = None"
  by (auto simp: find_None_iff)

lemma part_id_settle: "part_id (settle pid method now p) = part_id p"
  by (simp add: settle_def)

lemma find_settled:
  "List.find (\<lambda>q. part_id q = pid) (map (settle pid method now) ps) =
   map_option (settle pid method now) (List.find (\<lambda>q. part_id q = pid) ps)"
  by (induction ps) (simp_all add: part_id_settle)

lemma all_participations_settled:
  "all_participations
     (l\<lparr>expenses := map (\<lambda>e. e\<lparr>exp_participations := map f (exp_participations e)\<rparr>) (expenses l)\<rparr>) =
   map f (all_participations l)"
  by (simp add: all_participations_def map_concat comp_def)

lemma markSettled_settles:
  assumes "markSettled l pid method now = (Inr p', l')"
  shows "\<exists>p. find_participation l pid = Some p \<and> \<not> part_paid p \<and>
           find_participation l' pid = Some (settle pid method now p) \<and>
           part_paid (settle pid method now p)"
proof -
  from assms obtain p where p: "find_participation l pid = Some p" "\<not> part_paid p"
    and l': "l' = l\<lparr>expenses := map (\<lambda>e. e\<lparr>exp_participations :=
                 map (settle pid method now) (exp_participations e)\<rparr>) (expenses l)\<rparr>"
    by (auto simp: markSettled_def split: option.splits if_splits)
  from p(1) have "part_id p = pid"
    by (auto simp: find_participation_def find_Some_iff)
  then have paid: "part_paid (settle pid method now p)" by (simp add: settle_def)
  have "find_participation l' pid = Some (settle pid method now p)"
    using p(1) unfolding l' find_participation_def all_participations_settled find_settled
    by simp
  with p paid show ?thesis by blast
qed

text \<open>
  Claim C8. For a participation of the ledger that is already settled, \<open>markSettled\<close> fails
  with \<open>ConflictError\<close> and returns the ledger unchanged; for an id that no participation
  has, it fails with \<open>NotFoundError\<close> and returns the ledger unchanged; and after a
  settlement that succeeded, settling the same participation again fails with
  \<open>ConflictError\<close> and leaves the ledger as the first settlement made it. The ids of the
  participations of the ledger are distinct, as they are in every ledger served from an
  empty one (\<open>served_ids_distinct\<close> below).
\<close>

theorem markSettled_rejects:
  "(distinct (map part_id (all_participations l)) \<and> p \<in> set (all_participations l) \<and>
      part_paid p \<longrightarrow>
      markSettled l (part_id p) method now = (Inl ConflictError, l)) \<and>
   (pid \<notin> part_id ` set (all_participations l) \<longrightarrow>
      markSettled l pid method now = (Inl NotFoundError, l)) \<and>
   (markSettled l pid method now = (Inr p', l') \<longrightarrow>
      markSettled l' pid method' now' = (Inl ConflictError, l'))"
proof -
  have conflict: "markSettled l (part_id p) method now = (Inl ConflictError, l)"
    if "distinct (map part_id (all_participations l))" "p \<in> set (all_participations l)"
       "part_paid p"
    using that find_by_id [of "all_participations l" p]
    by (simp add: markSettled_def find_participation_def)
  have missing: "markSettled l pid method now = (Inl NotFoundError, l)"
    if "pid \<notin> part_id ` set (all_participations l)"
    using find_absent [OF that] by (simp add: markSettled_def find_participation_def)
  have again: "markSettled l' pid method' now' = (Inl ConflictError, l')"
    if "markSettled l pid method now = (Inr p', l')"
    using markSettled_settles [OF that] by (auto simp: markSettled_def)
  from conflict missing again show ?thesis by blast
qed

theorem markSettled_rejects_witness:
  "distinct (map part_id (all_participations (dinner [settled_half, open_half]))) \<and>
   settled_half \<in> set (all_participations (dinner [settled_half, open_half])) \<and>
   part_paid settled_half \<and>
   markSettled (dinner [settled_half, open_half]) 1 ''upi'' 9 =
     (Inl ConflictError, dinner [settled_half, open_half]) \<and>
   7 \<notin> part_id ` set (all_participations (dinner [settled_half, open_half])) \<and>
   markSettled (dinner [settled_half, open_half]) 7 ''upi'' 9 =
     (Inl NotFoundError, dinner [settled_half, open_half]) \<and>
   markSettled (dinner [settled_half, open_half]) 2 ''upi'' 9 =
     (Inr (open_half\<lparr>part_paid := True, part_method := Some ''upi'', part_settled_at := Some 9\<rparr>),
      dinner [settled_half,
        open_half\<lparr>part_paid := True, part_method := Some ''upi'', part_settled_at := Some 9\<rparr>]) \<and>
   markSettled
     (dinner [settled_half,
        open_half\<lparr>part_paid := True, part_method := Some ''upi'', part_settled_at := Some 9\<rparr>])
     2 ''cash'' 10 =
     (Inl ConflictError,
      dinner [settled_half,
        open_half\<lparr>part_paid := True, part_method := Some ''upi'', part_settled_at := Some 9\<rparr>])"
proof -
  let ?l = "dinner [settled_half, open_half]"
  let ?p' = "open_half\<lparr>part_paid := True, part_method := Some ''upi'', part_settled_at := Some 9\<rparr>"
  let ?l' = "dinner [settled_half, ?p']"
  have h1: "distinct (map part_id (all_participations ?l))"
    and h2: "settled_half \<in> set (all_participations ?l)"
    and h3: "part_paid settled_half"
    and h4: "7 \<notin> part_id ` set (all_participations ?l)"
    by (simp_all add: all_participations_def dinner_def settled_half_def open_half_def)
  have h5: "markSettled ?l 2 ''upi'' 9 = (Inr ?p', ?l')"
    by (simp add: markSettled_def find_participation_def all_participations_def dinner_def
        settled_half_def open_half_def settle_def)
  have c1: "markSettled ?l (part_id settled_half) ''upi'' 9 = (Inl ConflictError, ?l)"
    using markSettled_rejects [of ?l settled_half "''upi''" 9] h1 h2 h3 by blast
  have c2: "markSettled ?l 7 ''upi'' 9 = (Inl NotFoundError, ?l)"
    using markSettled_rejects [of ?l _ "''upi''" 9 7] h4 by blast
  have c3: "markSettled ?l' 2 ''cash'' 10 = (Inl ConflictError, ?l')"
    using markSettled_rejects [of ?l _ "''upi''" 9 2 ?p' ?l' "''cash''" 10] h5 by blast
  have id1: "part_id settled_half = 1" by (simp add: settled_half_def)
  from h1 h2 h3 h4 h5 c1 c2 c3 show ?thesis unfolding id1 by blast
qed

section \<open>The ids of a served ledger stay distinct\<close>

text \<open>
  Every request keeps the ids of the ledger distinct, so every ledger served from an
  empty one has distinct participation ids, as the first part of claim C8 supposes.
\<close>

lemma new_participation_ids:
  "map part_id (new_participations n split) = [n ..< n + length split]"
proof (induction split arbitrary: n)
  case Nil
  then show ?case by simp
next
  case (Cons ms split)
  obtain m s where ms: "ms = (m, s)" by (cases ms)
  show ?case unfolding ms using Cons.IH [of "Suc n"] by (simp add: upt_rec)
qed

lemma new_participation_bounds:
  "p \<in> set (new_participations n split) \<Longrightarrow> n \<le> part_id p \<and> part_id p < n + length split"
proof -
  assume "p \<in> set (new_participations n split)"
  then have "part_id p \<in> set (map part_id (new_participations n split))" by simp
  then show ?thesis unfolding new_participation_ids by simp
qed

lemma new_participations_distinct: "distinct (map part_id (new_participations n split))"
  unfolding new_participation_ids by simp

lemma createExpense_ok:
  assumes "ledger_ok l"
  shows "ledger_ok (snd (createExpense l g payer amount split))"
proof -
  let ?new = "new_participations (Suc (next_id l)) split"
  have old: "\<forall>p \<in> set (all_participations l). part_id p < next_id l"
    using assms by (simp add: ledger_ok_def)
  have "part_id ` set (all_participations l) \<inter> part_id ` set ?new = {}"
    using old new_participation_bounds [of _ "Suc (next_id l)" split] by fastforce
  then have d: "distinct (map part_id (all_participations l @ ?new))"
    using assms new_participations_distinct [of "Suc (next_id l)" split]
    by (simp add: ledger_ok_def)
  have b: "\<forall>p \<in> set (all_participations l @ ?new). part_id p < Suc (next_id l) + length split"
    using old new_participation_bounds [of _ "Suc (next_id l)" split] by fastforce
  have e: "\<forall>e \<in> set (expenses l). exp_id e < next_id l" "distinct (map exp_id (expenses l))"
    using assms by (simp_all add: ledger_ok_def)
  then have "next_id l \<notin> exp_id ` set (expenses l)" by auto
  with d b e show ?thesis
    by (auto simp: ledger_ok_def createExpense_def Let_def all_participations_def)
qed


lemma distinct_participations_filter:
  "distinct (map part_id (concat (map exp_participations es))) \<Longrightarrow>
   distinct (map part_id (concat (map exp_participations (filter P es))))"
  by (induction es) auto

lemma deleteExpense_ok:
  assumes "ledger_ok l"
  shows "ledger_ok (snd (deleteExpense l eid))"
proof (cases "List.find (\<lambda>e. exp_id e = eid) (expenses l)")
  case None
  with assms show ?thesis by (simp add: deleteExpense_def)
next
  case (Some old)
  have "distinct (map exp_id (filter (\<lambda>x. exp_id x \<noteq> eid) (expenses l)))"
    using assms by (simp add: ledger_ok_def distinct_map_filter)
  moreover have "distinct (map part_id (concat (map exp_participations
                   (filter (\<lambda>x. exp_id x \<noteq> eid) (expenses l)))))"
    using assms by (simp add: ledger_ok_def all_participations_def distinct_participations_filter)
  moreover have "\<forall>p \<in> set (concat (map exp_participations
                   (filter (\<lambda>x. exp_id x \<noteq> eid) (expenses l)))). part_id p < next_id l"
    using assms by (auto simp: ledger_ok_def all_participations_def)
  moreover have "\<forall>e \<in> set (filter (\<lambda>x. exp_id x \<noteq> eid) (expenses l)). exp_id e < next_id l"
    using assms by (simp add: ledger_ok_def)
  ultimately show ?thesis using Some
    by (simp add: deleteExpense_def ledger_ok_def all_participations_def)
qed

lemma markSettled_ok:
  assumes "ledger_ok l"
  shows "ledger_ok (snd (markSettled l pid method now))"
proof -
  let ?l' = "l\<lparr>expenses := map (\<lambda>e. e\<lparr>exp_participations :=
                 map (settle pid method now) (exp_participations e)\<rparr>) (expenses l)\<rparr>"
  have ps: "map part_id (all_participations ?l') = map part_id (all_participations l)"
    unfolding all_participations_settled by (simp add: part_id_settle comp_def)
  have b: "\<forall>p \<in> set (all_participations ?l'). part_id p < next_id l"
    unfolding all_participations_settled using assms
    by (auto simp: ledger_ok_def part_id_settle)
  have "ledger_ok ?l'"
    using assms b unfolding ledger_ok_def ps by (simp add: comp_def)
  with assms show ?thesis
    by (simp add: markSettled_def split: option.splits)
qed


lemma ids_apart:
  fixes f :: "'a \<Rightarrow> nat"
  assumes "\<forall>p \<in> A. f p < n" and "\<forall>p \<in> B. n \<le> f p"
  shows "f ` A \<inter> f ` B = {}"
proof (rule ccontr)
  assume "f ` A \<inter> f ` B \<noteq> {}"
  then obtain a b where "a \<in> A" "b \<in> B" "f a = f b" by auto
  with assms show False by (metis not_less)
qed

lemma replace_absent:
  "eid \<notin> exp_id ` set es \<Longrightarrow> map (\<lambda>x. if exp_id x = eid then e else x) es = es"
  by (induction es) auto

lemma replace_participations:
  "set (concat (map exp_participations (map (\<lambda>x. if exp_id x = eid then e else x) es))) \<subseteq>
   set (concat (map exp_participations es)) \<union> set (exp_participations e)"
  by (induction es) auto

lemma replace_distinct:
  assumes "distinct (map exp_id es)"
    and "distinct (map part_id (concat (map exp_participations es)))"
    and "\<forall>p \<in> set (concat (map exp_participations es)). part_id p < n"
    and "distinct (map part_id (exp_participations e))"
    and "\<forall>p \<in> set (exp_participations e). n \<le> part_id p"
  shows "distinct (map part_id
           (concat (map exp_participations (map (\<lambda>x. if exp_id x = eid then e else x) es))))"
  using assms(1-3)
proof (induction es)
  case Nil
  then show ?case by simp
next
  case (Cons x es)
  show ?case
  proof (cases "exp_id x = eid")
    case True
    with Cons.prems(1) have "eid \<notin> exp_id ` set es" by auto
    then have same: "map (\<lambda>x. if exp_id x = eid then e else x) es = es"
      by (rule replace_absent)
    have "\<forall>p \<in> set (concat (map exp_participations es)). part_id p < n"
      using Cons.prems(3) by simp
    then have "part_id ` set (concat (map exp_participations es)) \<inter>
          part_id ` set (exp_participations e) = {}"
      using assms(5) by (rule ids_apart)
    then have "part_id ` set (exp_participations e) \<inter>
          part_id ` set (concat (map exp_participations es)) = {}"
      by blast
    with True same Cons.prems(2) assms(4) show ?thesis by simp
  next
    case False
    have ih: "distinct (map part_id
           (concat (map exp_participations (map (\<lambda>x. if exp_id x = eid then e else x) es))))"
      using Cons.IH Cons.prems by simp
    have "\<forall>p \<in> set (exp_participations x). part_id p < n"
      using Cons.prems(3) by simp
    then have "part_id ` set (exp_participations x) \<inter> part_id ` set (exp_participations e) = {}"
      using assms(5) by (rule ids_apart)
    moreover have "part_id ` set (exp_participations x) \<inter>
          part_id ` set (concat (map exp_participations es)) = {}"
      using Cons.prems(2) by simp
    ultimately have "part_id ` set (exp_participations x) \<inter>
          part_id ` (set (concat (map exp_participations es)) \<union> set (exp_participations e)) = {}"
      by blast
    then have "part_id ` set (exp_participations x) \<inter>
          part_id ` set (concat (map exp_participations
             (map (\<lambda>x. if exp_id x = eid then e else x) es))) = {}"
      using replace_participations [of eid e es] by blast
    with False ih Cons.prems(2) show ?thesis by simp
  qed
qed

lemma editExpense_ok:
  assumes "ledger_ok l"
  shows "ledger_ok (snd (editExpense l eid payer amount split))"
proof (cases "List.find (\<lambda>e. exp_id e = eid) (expenses l)")
  case None
  with assms show ?thesis by (simp add: editExpense_def)
next
  case (Some old)
  let ?e = "old\<lparr>exp_payer := payer, exp_total := amount,
                 exp_participations := new_participations (next_id l) split\<rparr>"
  let ?es = "map (\<lambda>x. if exp_id x = eid then ?e else x) (expenses l)"
  from Some have eid: "exp_id old = eid" by (auto simp: find_Some_iff)
  then have ids: "map exp_id ?es = map exp_id (expenses l)" by (simp add: comp_def)
  have d1: "distinct (map exp_id ?es)"
    unfolding ids using assms by (simp add: ledger_ok_def)
  have b1: "\<forall>e \<in> set ?es. exp_id e < next_id l + length split"
    using assms eid by (auto simp: ledger_ok_def)
  have d2: "distinct (map part_id (concat (map exp_participations ?es)))"
  proof (rule replace_distinct [where n = "next_id l"])
    show "distinct (map exp_id (expenses l))"
      using assms by (simp add: ledger_ok_def)
    show "distinct (map part_id (concat (map exp_participations (expenses l))))"
      using assms by (simp add: ledger_ok_def all_participations_def)
    show "\<forall>p \<in> set (concat (map exp_participations (expenses l))). part_id p < next_id l"
      using assms by (simp add: ledger_ok_def all_participations_def)
    show "distinct (map part_id (exp_participations ?e))"
      by (simp add: new_participations_distinct)
    show "\<forall>p \<in> set (exp_participations ?e). next_id l \<le> part_id p"
      using new_participation_bounds [of _ "next_id l" split] by simp
  qed
  have b2: "\<forall>p \<in> set (concat (map exp_participations ?es)). part_id p < next_id l + length split"
  proof
    fix p assume "p \<in> set (concat (map exp_participations ?es))"
    then have "p \<in> set (concat (map exp_participations (expenses l))) \<or>
               p \<in> set (exp_participations ?e)"
      using replace_participations [of eid ?e "expenses l"] by blast
    then show "part_id p < next_id l + length split"
    proof
      assume "p \<in> set (concat (map exp_participations (expenses l)))"
      then have "part_id p < next_id l"
        using assms by (auto simp: ledger_ok_def all_participations_def)
      then show ?thesis by simp
    next
      assume "p \<in> set (exp_participations ?e)"
      then show ?thesis using new_participation_bounds [of p "next_id l" split] by simp
    qed
  qed
  from d1 b1 d2 b2 Some show ?thesis
    by (simp add: editExpense_def ledger_ok_def all_participations_def Let_def)
qed

lemma serve_ok: "ledger_ok l \<Longrightarrow> ledger_ok (serve l r)"
  by (cases r) (simp_all add: createExpense_ok editExpense_ok deleteExpense_ok markSettled_ok)

lemma serve_all_ok: "ledger_ok l \<Longrightarrow> ledger_ok (serve_all l rs)"
  unfolding serve_all_def by (induction rs arbitrary: l) (simp_all add: serve_ok)

lemma empty_ledger_ok: "ledger_ok \<lparr>group_members = gs, expenses = [], next_id = n\<rparr>"
  by (simp add: ledger_ok_def all_participations_def)

lemma served_ids_distinct:
  "distinct (map part_id (all_participations
     (serve_all \<lparr>group_members = gs, expenses = [], next_id = n\<rparr> requests)))"
  using serve_all_ok [OF empty_ledger_ok, of gs n requests] by (simp add: ledger_ok_def)

section \<open>Unrecognised methods\<close>

text \<open>
  Claim C9. For every amount, participant list and method data, a method other than
  \<^verbatim>\<open>'equal'\<close>, \<^verbatim>\<open>'exact'\<close> and \<^verbatim>\<open>'percentage'\<close> makes \<open>calculateSplit\<close> return the empty
  mapping: nobody is given a share and nothing is thrown.
\<close>

theorem calculateSplit_unknown_method:
  assumes "method \<noteq> ''equal''" and "method \<noteq> ''exact''" and "method \<noteq> ''percentage''"
  shows "calculateSplit amount participants method data = Inr []"
  using assms by (simp add: calculateSplit_def)

theorem calculateSplit_unknown_method_witness:
  "''shares'' \<noteq> ''equal'' \<and> ''shares'' \<noteq> ''exact'' \<and> ''shares'' \<noteq> ''percentage'' \<and>
   calculateSplit (Fin 100) [\<lparr>participant_id = 1\<rparr>, \<lparr>participant_id = 2\<rparr>] ''shares''
     \<lparr>amounts = None, percentages = None\<rparr> = Inr []"
  using calculateSplit_unknown_method
    [of "''shares''" "Fin 100" "[\<lparr>participant_id = 1\<rparr>, \<lparr>participant_id = 2\<rparr>]"
        "\<lparr>amounts = None, percentages = None\<rparr>"]
  by simp

end
